theory Spec2Isabelle
  imports Main
begin

unbundle bit_operations_syntax

section \<open>The state circuit checker of zkevm_specs/state.py\<close>

text \<open>
  Python integers are \<open>int\<close>. A field element \<open>FQ\<close> is modelled by its integer
  representative \<open>.n\<close>; the arithmetic of \<open>FQ\<close> reduces modulo the field modulus.
  An exception is a value of type \<open>error\<close>; a checker returns \<open>Inr ()\<close> when it runs
  to its end and \<open>Inl e\<close> when it raises \<open>e\<close>.
\<close>

subsection \<open>Constants\<close>

definition MAX_RW_COUNTER :: int where "MAX_RW_COUNTER = 2 ^ 32 - 1"
definition MAX_MEMORY_ADDRESS :: int where "MAX_MEMORY_ADDRESS = 2 ^ 32 - 1"
definition MAX_KEY_DIFF :: int where "MAX_KEY_DIFF = 2 ^ 32 - 1"
definition MAX_STACK_PTR :: int where "MAX_STACK_PTR = 1023"
definition MAX_TAG :: int where "MAX_TAG = 12"
definition MAX_ID :: int where "MAX_ID = 2 ^ 28 - 1"
definition MAX_ADDRESS :: int where "MAX_ADDRESS = 2 ^ 160 - 1"
definition MAX_FIELD_TAG :: int where "MAX_FIELD_TAG = 24"

text \<open>
  The source computes the bit widths as \<open>ceil(log(MAX + 1, 2))\<close> in floating point; they
  are taken here at the values its comments state (32, 4, 28, 160, 5).
\<close>

definition RW_COUNTER_BITS :: nat where "RW_COUNTER_BITS = 32"
definition TAG_BITS :: nat where "TAG_BITS = 4"
definition ID_BITS :: nat where "ID_BITS = 28"
definition ADDRESS_BITS :: nat where "ADDRESS_BITS = 160"
definition FIELD_TAG_BITS :: nat where "FIELD_TAG_BITS = 5"

subsection \<open>What the modules util and evm declare\<close>

text \<open>
  The source imports \<open>FQ\<close> from \<open>.util\<close> and the enumerations \<open>MPTTableTag\<close>,
  \<open>TxReceiptFieldTag\<close> and \<open>RW\<close> from \<open>.evm\<close>. Their declarations are not part of
  state.py, so the field modulus and the four enumeration values that state.py reads are
  parameters of the model, collected in one record.
\<close>

record env =
  field_modulus :: int
  MPTTableTag_Storage :: int
  PostStateOrStatus :: int
  CumulativeGasUsed :: int
  RW_Read :: int

definition FQ :: "env \<Rightarrow> int \<Rightarrow> int" where
  "FQ e n = n mod field_modulus e"

definition fq_add :: "env \<Rightarrow> int \<Rightarrow> int \<Rightarrow> int" where
  "fq_add e a b = (a + b) mod field_modulus e"

definition fq_sub :: "env \<Rightarrow> int \<Rightarrow> int \<Rightarrow> int" where
  "fq_sub e a b = (a - b) mod field_modulus e"

definition fq_mul :: "env \<Rightarrow> int \<Rightarrow> int \<Rightarrow> int" where
  "fq_mul e a b = (a * b) mod field_modulus e"

subsection \<open>Errors and statements\<close>

datatype error =
    AssertionError string
  | ValueError string
  | IndexError
  | OverflowError
  | LookupUnsatFailure

type_synonym result = "error + unit"

definition assert_that :: "string \<Rightarrow> bool \<Rightarrow> result" where
  "assert_that rule b = (if b then Inr () else Inl (AssertionError rule))"

text \<open>\<open>if_then c s\<close> is the statement \<open>if c: s\<close>.\<close>

definition if_then :: "bool \<Rightarrow> result \<Rightarrow> result" where
  "if_then c s = (if c then s else Inr ())"

text \<open>A block of statements runs them in order and stops at the first that raises.\<close>

fun block :: "result list \<Rightarrow> result" where
  "block [] = Inr ()"
| "block (s # ss) = (case s of Inl e \<Rightarrow> Inl e | Inr u \<Rightarrow> block ss)"

subsection \<open>Tag and Row\<close>

datatype Tag =
    Start | Memory | Stack | Storage | CallContext | Account | TxRefund
  | TxAccessListAccount | TxAccessListAccountStorage | AccountDestructed | TxLog | TxReceipt

fun Tag_value :: "Tag \<Rightarrow> int" where
  "Tag_value Start = 1"
| "Tag_value Memory = 2"
| "Tag_value Stack = 3"
| "Tag_value Storage = 4"
| "Tag_value CallContext = 5"
| "Tag_value Account = 6"
| "Tag_value TxRefund = 7"
| "Tag_value TxAccessListAccount = 8"
| "Tag_value TxAccessListAccountStorage = 9"
| "Tag_value AccountDestructed = 10"
| "Tag_value TxLog = 11"
| "Tag_value TxReceipt = 12"

text \<open>
  \<open>auxs\<close> is a tuple of one element in the source; the field holds that element
  (\<open>row.auxs[0]\<close>).
\<close>

record row =
  rw_counter :: int
  is_write :: int
  keys :: "int \<times> int \<times> int \<times> int \<times> int"
  key2_limbs :: "int list"
  key4_bytes :: "int list"
  row_value :: int
  auxs :: int
  mpt_counter :: int

definition tag :: "row \<Rightarrow> int" where
  "tag r = (case keys r of (k0, k1, k2, k3, k4) \<Rightarrow> k0)"

definition row_id :: "row \<Rightarrow> int" where
  "row_id r = (case keys r of (k0, k1, k2, k3, k4) \<Rightarrow> k1)"

definition address :: "row \<Rightarrow> int" where
  "address r = (case keys r of (k0, k1, k2, k3, k4) \<Rightarrow> k2)"

definition address_limbs :: "row \<Rightarrow> int list" where
  "address_limbs r = key2_limbs r"

definition field_tag :: "row \<Rightarrow> int" where
  "field_tag r = (case keys r of (k0, k1, k2, k3, k4) \<Rightarrow> k3)"

definition storage_key :: "row \<Rightarrow> int" where
  "storage_key r = (case keys r of (k0, k1, k2, k3, k4) \<Rightarrow> k4)"

definition storage_key_bytes :: "row \<Rightarrow> int list" where
  "storage_key_bytes r = key4_bytes r"

subsection \<open>The lookup table\<close>

record MPTTableRow =
  counter :: int
  target :: int
  mpt_address :: int
  mpt_key :: int
  mpt_value :: int
  value_prev :: int

text \<open>
  Modelled from the spec: \<open>lookup\<close> of the module evm, which is not part of state.py.
  The oracle is "consulted by exact match": the query of state.py fixes all six fields
  of an entry, so the lookup returns the entry when the set holds it and raises
  otherwise ("missing or mismatched entries reject the row").
\<close>

definition lookup :: "MPTTableRow set \<Rightarrow> MPTTableRow \<Rightarrow> error + MPTTableRow" where
  "lookup table query = (if query \<in> table then Inr query else Inl LookupUnsatFailure)"

definition mpt_account_lookup ::
  "env \<Rightarrow> MPTTableRow set \<Rightarrow> int \<Rightarrow> int \<Rightarrow> int \<Rightarrow> int \<Rightarrow> int \<Rightarrow> error + MPTTableRow" where
  "mpt_account_lookup e mpt_table cnt tgt addr val val_prev =
     lookup mpt_table
       \<lparr>counter = cnt, target = tgt, mpt_address = addr, mpt_key = FQ e 0,
        mpt_value = val, value_prev = val_prev\<rparr>"

definition mpt_storage_lookup ::
  "env \<Rightarrow> MPTTableRow set \<Rightarrow> int \<Rightarrow> int \<Rightarrow> int \<Rightarrow> int \<Rightarrow> int \<Rightarrow> error + MPTTableRow" where
  "mpt_storage_lookup e mpt_table cnt addr k val val_prev =
     lookup mpt_table
       \<lparr>counter = cnt, target = FQ e (MPTTableTag_Storage e), mpt_address = addr, mpt_key = k,
        mpt_value = val, value_prev = val_prev\<rparr>"

text \<open>A lookup used as a statement: its result is dropped.\<close>

definition lookup_stmt :: "error + MPTTableRow \<Rightarrow> result" where
  "lookup_stmt l = (case l of Inl e \<Rightarrow> Inl e | Inr r \<Rightarrow> Inr ())"

subsection \<open>all_keys_eq, LowerThanGadget, assert_in_range\<close>

definition all_keys_eq :: "row \<Rightarrow> row \<Rightarrow> bool" where
  "all_keys_eq r r_prev =
     ((((True \<and> tag r = tag r_prev) \<and> row_id r = row_id r_prev) \<and> address r = address r_prev)
        \<and> field_tag r = field_tag r_prev \<and> storage_key r = storage_key r_prev)"

text \<open>
  The loop of \<open>LowerThanGadget.verify\<close> over the limbs 1, 2, ... of \<open>lhs\<close>; it reads
  \<open>rhs\<close> at the same index, which raises when \<open>rhs\<close> is shorter.
\<close>

fun lt_loop :: "bool \<Rightarrow> int list \<Rightarrow> int list \<Rightarrow> error + bool" where
  "lt_loop lt [] rs = Inr lt"
| "lt_loop lt (l # ls) [] = Inl IndexError"
| "lt_loop lt (l # ls) (r # rs) = lt_loop (l < r \<or> (l = r \<and> lt)) ls rs"

fun verify :: "int list \<Rightarrow> int list \<Rightarrow> result" where
  "verify (l # ls) (r # rs) =
     (case lt_loop (l < r) ls rs of
        Inl e \<Rightarrow> Inl e
      | Inr lt \<Rightarrow> assert_that ''LowerThanGadget'' lt)"
| "verify lhs rhs = Inl IndexError"

definition assert_in_range :: "int \<Rightarrow> int \<Rightarrow> int \<Rightarrow> result" where
  "assert_in_range x min_val max_val =
     assert_that ''assert_in_range'' (min_val \<le> x \<and> x \<le> max_val)"

subsection \<open>linear_combine and int.from_bytes\<close>

text \<open>
  Modelled from the spec: \<open>linear_combine\<close> of the module util, which is not part of
  state.py. It is the linear combination "\<open>\<Sigma> byte_i \<sqdot> base^i\<close>" of a little-endian
  sequence, computed in the field; called without \<open>range_check=False\<close> it asserts
  that every element is a byte ("32 \<times> 8-bit limbs").
\<close>

fun linear_combination :: "env \<Rightarrow> int list \<Rightarrow> int \<Rightarrow> int" where
  "linear_combination e [] base = FQ e 0"
| "linear_combination e (b # bs) base =
     fq_add e (fq_mul e (linear_combination e bs base) base) (FQ e b)"

definition linear_combine :: "env \<Rightarrow> int list \<Rightarrow> int \<Rightarrow> bool \<Rightarrow> error + int" where
  "linear_combine e seq base range_check =
     (if range_check \<and> list_ex (\<lambda>b. b < 0 \<or> 256 \<le> b) seq
      then Inl (AssertionError ''linear_combine range_check'')
      else Inr (linear_combination e seq base))"

text \<open>\<open>assert x == f(...)\<close>, where evaluating \<open>f(...)\<close> may raise.\<close>

definition assert_eq :: "string \<Rightarrow> int \<Rightarrow> error + int \<Rightarrow> result" where
  "assert_eq rule x y = (case y of Inl err \<Rightarrow> Inl err | Inr v \<Rightarrow> assert_that rule (x = v))"

text \<open>
  Python's \<open>int.from_bytes(it, "little")\<close> on an iterable of integers: it raises
  ValueError when one of them is not in \<open>range(0, 256)\<close>.
\<close>

fun from_bytes_little :: "int list \<Rightarrow> error + int" where
  "from_bytes_little [] = Inr 0"
| "from_bytes_little (b # bs) =
     (if 0 \<le> b \<and> b < 256
      then (case from_bytes_little bs of Inl err \<Rightarrow> Inl err | Inr v \<Rightarrow> Inr (b + 256 * v))
      else Inl (ValueError ''bytes must be in range(0, 256)''))"

subsection \<open>The checks of each tag\<close>

definition check_start :: "row \<Rightarrow> row \<Rightarrow> result" where
  "check_start r r_prev =
     block [
       assert_that ''1.0 rw_counter is 0'' (rw_counter r = 0),
       assert_that ''1 mpt_counter is 0'' (mpt_counter r = 0)]"

definition check_memory :: "row \<Rightarrow> row \<Rightarrow> result" where
  "check_memory r r_prev =
     block [
       assert_that ''2.0 field_tag'' (field_tag r = 0),
       assert_that ''2.0 storage_key'' (storage_key r = 0),
       if_then (\<not> all_keys_eq r r_prev \<and> is_write r = 0)
         (assert_that ''2.1'' (row_value r = 0)),
       assert_in_range (address r) 0 MAX_MEMORY_ADDRESS,
       assert_in_range (row_value r) 0 (2 ^ 8 - 1)]"

definition check_stack :: "env \<Rightarrow> row \<Rightarrow> row \<Rightarrow> result" where
  "check_stack e r r_prev =
     block [
       assert_that ''3.0 field_tag'' (field_tag r = 0),
       assert_that ''3.0 storage_key'' (storage_key r = 0),
       if_then (\<not> all_keys_eq r r_prev)
         (assert_that ''3.1'' (is_write r = 1)),
       assert_in_range (address r) 0 MAX_STACK_PTR,
       if_then (tag r = tag r_prev \<and> row_id r = row_id r_prev)
         (assert_in_range (fq_sub e (address r) (address r_prev)) 0 1)]"

definition check_storage :: "env \<Rightarrow> row \<Rightarrow> row \<Rightarrow> MPTTableRow set \<Rightarrow> result" where
  "check_storage e r r_prev tables =
     block [
       assert_that ''4.0 field_tag'' (field_tag r = 0),
       if_then (all_keys_eq r r_prev)
         (assert_that ''4.1'' (auxs r = auxs r_prev)),
       lookup_stmt
         (mpt_storage_lookup e tables (mpt_counter r) (address r) (storage_key r) (row_value r)
            (if all_keys_eq r r_prev then row_value r_prev else auxs r))]"

definition check_call_context :: "row \<Rightarrow> row \<Rightarrow> result" where
  "check_call_context r r_prev =
     block [
       assert_that ''5.0 address'' (address r = 0),
       assert_that ''5.0 storage_key'' (storage_key r = 0)]"

definition check_account :: "env \<Rightarrow> row \<Rightarrow> row \<Rightarrow> MPTTableRow set \<Rightarrow> result" where
  "check_account e r r_prev tables =
     block [
       assert_that ''6.0 id'' (row_id r = 0),
       assert_that ''6.0 storage_key'' (storage_key r = 0),
       if_then (all_keys_eq r r_prev)
         (assert_that ''6.1'' (auxs r = auxs r_prev)),
       lookup_stmt
         (mpt_account_lookup e tables (mpt_counter r) (field_tag r) (address r) (row_value r)
            (if all_keys_eq r r_prev then row_value r_prev else auxs r))]"

definition check_tx_refund :: "row \<Rightarrow> row \<Rightarrow> result" where
  "check_tx_refund r r_prev =
     block [
       assert_that ''7.0 address'' (address r = 0),
       assert_that ''7.0 field_tag'' (field_tag r = 0),
       assert_that ''7.0 storage_key'' (storage_key r = 0)]"

definition check_tx_access_list_account :: "row \<Rightarrow> row \<Rightarrow> result" where
  "check_tx_access_list_account r r_prev =
     block [
       assert_that ''9.0 field_tag'' (field_tag r = 0),
       assert_that ''9.0 storage_key'' (storage_key r = 0)]"

definition check_tx_access_list_account_storage :: "row \<Rightarrow> row \<Rightarrow> result" where
  "check_tx_access_list_account_storage r r_prev =
     block [
       assert_that ''8.0 field_tag'' (field_tag r = 0)]"

definition check_account_destructed :: "row \<Rightarrow> row \<Rightarrow> result" where
  "check_account_destructed r r_prev =
     block [
       assert_that ''10.0 id'' (row_id r = 0),
       assert_that ''10.0 field_tag'' (field_tag r = 0),
       assert_that ''10.0 storage_key'' (storage_key r = 0)]"

definition check_tx_log :: "row \<Rightarrow> row \<Rightarrow> result" where
  "check_tx_log r r_prev =
     block [
       assert_that ''12.0'' (is_write r = 1)]"

definition check_tx_receipt :: "env \<Rightarrow> row \<Rightarrow> row \<Rightarrow> result" where
  "check_tx_receipt e r r_prev =
     block [
       assert_that ''11.0 address'' (address r = 0),
       assert_that ''11.0 storage_key'' (storage_key r = 0),
       if_then (field_tag r = PostStateOrStatus e)
         (assert_that ''11.1'' (row_value r = 0 \<or> row_value r = 1)),
       if_then (row_id r \<noteq> row_id r_prev \<and> tag r = tag r_prev)
         (block [
            assert_that ''11.2 tx_id'' (row_id r = fq_add e (row_id r_prev) 1),
            if_then (field_tag r = CumulativeGasUsed e)
              (assert_that ''11.2 CumulativeGasUsed'' (row_value r > row_value r_prev))]),
       if_then (tag r \<noteq> tag r_prev)
         (assert_that ''11.3'' (row_id r = FQ e 1)),
       assert_in_range (row_id r) 1 (2 ^ 11)]"

subsection \<open>check_state_row\<close>

text \<open>The loop \<open>for i in range(n): limbs.append(FQ(v & 0xFFFF)); v = v >> 16\<close>.\<close>

fun limbs_loop :: "env \<Rightarrow> nat \<Rightarrow> int \<Rightarrow> int list" where
  "limbs_loop e 0 v = []"
| "limbs_loop e (Suc n) v = FQ e (v AND 65535) # limbs_loop e n (drop_bit 16 v)"

definition keys_rwc_to_limbs_in_order :: "env \<Rightarrow> row \<Rightarrow> error + int list" where
  "keys_rwc_to_limbs_in_order e r =
     (case from_bytes_little (storage_key_bytes r) of
        Inl err \<Rightarrow> Inl err
      | Inr key_int \<Rightarrow>
          (let v = tag r;
               v = v * 2 ^ ID_BITS + row_id r;
               v = v * 2 ^ ADDRESS_BITS + address r;
               v = v * 2 ^ 16 + field_tag r;
               v = v * (2 ^ 32) + key_int;
               v = v * 2 ^ RW_COUNTER_BITS + rw_counter r
           in Inr (limbs_loop e 31 v)))"

text \<open>
  Step 0.4 of \<open>check_state_row\<close>: the limbs of both rows are computed, and the
  comparison runs when the tag of the row is not Start.
\<close>

definition check_ordering :: "env \<Rightarrow> row \<Rightarrow> row \<Rightarrow> result" where
  "check_ordering e r r_prev =
     (case keys_rwc_to_limbs_in_order e r_prev of
        Inl err \<Rightarrow> Inl err
      | Inr limbs_prev \<Rightarrow>
          (case keys_rwc_to_limbs_in_order e r of
             Inl err \<Rightarrow> Inl err
           | Inr limbs \<Rightarrow> if_then (tag r \<noteq> Tag_value Start) (verify limbs_prev limbs)))"

text \<open>The chain of \<open>if\<close>/\<open>elif\<close> on the tag that ends \<open>check_state_row\<close>.\<close>

definition tag_dispatch :: "env \<Rightarrow> row \<Rightarrow> row \<Rightarrow> MPTTableRow set \<Rightarrow> result" where
  "tag_dispatch e r r_prev tables =
     (if tag r = Tag_value Start then check_start r r_prev
      else if tag r = Tag_value Memory then check_memory r r_prev
      else if tag r = Tag_value Stack then check_stack e r r_prev
      else if tag r = Tag_value Storage then check_storage e r r_prev tables
      else if tag r = Tag_value CallContext then check_call_context r r_prev
      else if tag r = Tag_value Account then check_account e r r_prev tables
      else if tag r = Tag_value TxRefund then check_tx_refund r r_prev
      else if tag r = Tag_value TxAccessListAccountStorage
        then check_tx_access_list_account_storage r r_prev
      else if tag r = Tag_value TxAccessListAccount then check_tx_access_list_account r r_prev
      else if tag r = Tag_value AccountDestructed then check_account_destructed r r_prev
      else if tag r = Tag_value TxReceipt then check_tx_receipt e r r_prev
      else if tag r = Tag_value TxLog then check_tx_log r r_prev
      else Inl (ValueError ''Unreacheable''))"

definition check_state_row :: "env \<Rightarrow> row \<Rightarrow> row \<Rightarrow> MPTTableRow set \<Rightarrow> int \<Rightarrow> result" where
  "check_state_row e r r_prev tables randomness =
     block [
       assert_in_range (tag r) 1 MAX_TAG,
       assert_in_range (row_id r) 0 MAX_ID,
       assert_in_range (field_tag r) 0 MAX_FIELD_TAG,
       block (map (\<lambda>limb. assert_in_range limb 0 (2 ^ 16 - 1)) (address_limbs r)),
       assert_eq ''0.1'' (address r) (linear_combine e (address_limbs r) (FQ e (2 ^ 16)) False),
       assert_eq ''0.2'' (storage_key r) (linear_combine e (storage_key_bytes r) randomness True),
       assert_that ''0.3'' (is_write r = 0 \<or> is_write r = 1),
       assert_that ''0.4 TAG_BITS + ID_BITS'' (TAG_BITS + ID_BITS = 2 * 16),
       check_ordering e r r_prev,
       if_then (is_write r = 0 \<and> all_keys_eq r r_prev)
         (assert_that ''0.5'' (row_value r = row_value r_prev)),
       if_then (tag r \<noteq> Tag_value Start)
         (if tag r = Tag_value Storage \<or> tag r = Tag_value Account
          then assert_that ''7 increment'' (mpt_counter r = fq_add e (mpt_counter r_prev) 1)
          else assert_that ''7 keep'' (mpt_counter r = mpt_counter r_prev)),
       if_then (tag r \<noteq> Tag_value Start)
         (assert_that ''8'' (rw_counter r \<noteq> 0)),
       tag_dispatch e r r_prev tables]"

text \<open>
  The first part of \<open>check_state_row\<close>, which the source heads "Constraints that affect
  all rows, no matter which Tag they use": its statements before the part headed
  "Constraints specific to each Tag".
\<close>

definition shared_checks :: "env \<Rightarrow> row \<Rightarrow> row \<Rightarrow> int \<Rightarrow> result" where
  "shared_checks e r r_prev randomness =
     block [
       assert_in_range (tag r) 1 MAX_TAG,
       assert_in_range (row_id r) 0 MAX_ID,
       assert_in_range (field_tag r) 0 MAX_FIELD_TAG,
       block (map (\<lambda>limb. assert_in_range limb 0 (2 ^ 16 - 1)) (address_limbs r)),
       assert_eq ''0.1'' (address r) (linear_combine e (address_limbs r) (FQ e (2 ^ 16)) False),
       assert_eq ''0.2'' (storage_key r) (linear_combine e (storage_key_bytes r) randomness True),
       assert_that ''0.3'' (is_write r = 0 \<or> is_write r = 1),
       assert_that ''0.4 TAG_BITS + ID_BITS'' (TAG_BITS + ID_BITS = 2 * 16),
       check_ordering e r r_prev,
       if_then (is_write r = 0 \<and> all_keys_eq r r_prev)
         (assert_that ''0.5'' (row_value r = row_value r_prev)),
       if_then (tag r \<noteq> Tag_value Start)
         (if tag r = Tag_value Storage \<or> tag r = Tag_value Account
          then assert_that ''7 increment'' (mpt_counter r = fq_add e (mpt_counter r_prev) 1)
          else assert_that ''7 keep'' (mpt_counter r = mpt_counter r_prev)),
       if_then (tag r \<noteq> Tag_value Start)
         (assert_that ''8'' (rw_counter r \<noteq> 0))]"

subsection \<open>Operations and the row builder\<close>

record operation =
  op_rw_counter :: int
  op_rw :: int
  op_tag :: int
  op_id :: int
  op_address :: int
  op_field_tag :: int
  op_storage_key :: int
  op_value :: int
  op_aux0 :: int

text \<open>
  Python's \<open>v.to_bytes(n, "little")\<close>: OverflowError when \<open>v\<close> is negative or does not
  fit \<open>n\<close> bytes.
\<close>

definition to_bytes_little :: "nat \<Rightarrow> int \<Rightarrow> error + int list" where
  "to_bytes_little n v =
     (if 0 \<le> v \<and> v < 256 ^ n
      then Inr (map (\<lambda>i. (v div 256 ^ i) mod 256) [0..<n])
      else Inl OverflowError)"

text \<open>
  Modelled from the spec: the class \<open>RLC\<close> of the module util, which is not part of
  state.py. It "computes the RLC encoding (and its byte decomposition) of the storage
  key": the 32 little-endian bytes of the key, and their linear combination with the
  challenge. The pair is (\<open>expr()\<close>, \<open>le_bytes\<close>).
\<close>

definition RLC :: "env \<Rightarrow> int \<Rightarrow> int \<Rightarrow> error + (int \<times> int list)" where
  "RLC e v randomness =
     (case to_bytes_little 32 v of
        Inl err \<Rightarrow> Inl err
      | Inr le_bytes \<Rightarrow>
          (case linear_combine e le_bytes randomness True of
             Inl err \<Rightarrow> Inl err
           | Inr rlc \<Rightarrow> Inr (rlc, le_bytes)))"

text \<open>
  \<open>Assigner.op2row\<close>: the state of the assigner is its \<open>mpt_counter\<close>, passed in and
  returned with the row.
\<close>

definition op2row :: "env \<Rightarrow> int \<Rightarrow> operation \<Rightarrow> int \<Rightarrow> error + (row \<times> int)" where
  "op2row e assigner_mpt_counter op randomness =
     (case to_bytes_little 20 (op_address op) of
        Inl err \<Rightarrow> Inl err
      | Inr address_bytes \<Rightarrow>
          (case RLC e (op_storage_key op) randomness of
             Inl err \<Rightarrow> Inl err
           | Inr (storage_key_expr, le_bytes) \<Rightarrow>
               (let tg = FQ e (op_tag op);
                    cnt = (if tg = FQ e (Tag_value Storage) \<or> tg = FQ e (Tag_value Account)
                           then fq_add e assigner_mpt_counter 1
                           else assigner_mpt_counter)
                in Inr
                  (\<lparr>rw_counter = FQ e (op_rw_counter op),
                    is_write = (if op_rw op = RW_Read e then FQ e 0 else FQ e 1),
                    keys = (tg, FQ e (op_id op), FQ e (op_address op), FQ e (op_field_tag op),
                            storage_key_expr),
                    key2_limbs =
                      map (\<lambda>i. FQ e (address_bytes ! i + 2 ^ 8 * address_bytes ! (i + 1)))
                        (map (\<lambda>j. 2 * j) [0..<10]),
                    key4_bytes = map (FQ e) le_bytes,
                    row_value = FQ e (op_value op),
                    auxs = FQ e (op_aux0 op),
                    mpt_counter = cnt\<rparr>,
                   cnt))))"

text \<open>
  \<open>assign_state_circuit\<close>: the list comprehension over \<open>ops\<close>, threading the assigner
  from its initial state \<open>FQ(0)\<close>.
\<close>

fun assign_rows :: "env \<Rightarrow> int \<Rightarrow> operation list \<Rightarrow> int \<Rightarrow> error + row list" where
  "assign_rows e c [] randomness = Inr []"
| "assign_rows e c (op # ops) randomness =
     (case op2row e c op randomness of
        Inl err \<Rightarrow> Inl err
      | Inr (r, c') \<Rightarrow>
          (case assign_rows e c' ops randomness of
             Inl err \<Rightarrow> Inl err
           | Inr rows \<Rightarrow> Inr (r # rows)))"

definition assign_state_circuit :: "env \<Rightarrow> operation list \<Rightarrow> int \<Rightarrow> error + row list" where
  "assign_state_circuit e ops randomness = assign_rows e (FQ e 0) ops randomness"

subsection \<open>The projection to the lookup table\<close>

text \<open>The entries the loop of \<open>mpt_table_from_ops\<close> appends at index \<open>idx\<close>.\<close>

definition mpt_rows_at :: "env \<Rightarrow> row list \<Rightarrow> nat \<Rightarrow> MPTTableRow list" where
  "mpt_rows_at e rows idx =
     (let r = rows ! idx;
          val_prev = (if idx > 0 \<and> all_keys_eq r (rows ! (idx - 1))
                      then row_value (rows ! (idx - 1)) else auxs r)
      in if tag r = FQ e (Tag_value Storage)
         then [\<lparr>counter = mpt_counter r, target = FQ e (MPTTableTag_Storage e),
                 mpt_address = address r, mpt_key = storage_key r,
                 mpt_value = row_value r, value_prev = val_prev\<rparr>]
         else if tag r = FQ e (Tag_value Account)
         then [\<lparr>counter = mpt_counter r, target = field_tag r,
                 mpt_address = address r, mpt_key = storage_key r,
                 mpt_value = row_value r, value_prev = val_prev\<rparr>]
         else [])"

definition mpt_rows :: "env \<Rightarrow> row list \<Rightarrow> MPTTableRow list" where
  "mpt_rows e rows = concat (map (mpt_rows_at e rows) [0..<length rows])"

datatype ops_or_rows = Operations "operation list" | Rows "row list"

text \<open>
  \<open>mpt_table_from_ops\<close> reads \<open>ops_or_rows[0]\<close> first, which raises IndexError on an
  empty list.
\<close>

fun mpt_table_from_ops :: "env \<Rightarrow> ops_or_rows \<Rightarrow> int \<Rightarrow> error + MPTTableRow set" where
  "mpt_table_from_ops e (Operations []) randomness = Inl IndexError"
| "mpt_table_from_ops e (Rows []) randomness = Inl IndexError"
| "mpt_table_from_ops e (Operations ops) randomness =
     (case assign_state_circuit e ops randomness of
        Inl err \<Rightarrow> Inl err
      | Inr rows \<Rightarrow> Inr (set (mpt_rows e rows)))"
| "mpt_table_from_ops e (Rows rows) randomness = Inr (set (mpt_rows e rows))"

subsection \<open>The properties the specification states, in its own words\<close>

text \<open>
  The composite key of a row, most significant component first: tag, id, address,
  field_tag, the storage key as the integer its 32 bytes encode (little-endian), and
  rw_counter.
\<close>

definition storage_key_int :: "row \<Rightarrow> int" where
  "storage_key_int r = foldr (\<lambda>b v. b + 256 * v) (storage_key_bytes r) 0"

definition composite_key :: "row \<Rightarrow> int list" where
  "composite_key r =
     [tag r, row_id r, address r, field_tag r, storage_key_int r, rw_counter r]"

text \<open>Strict lexicographic order on sequences of the same length.\<close>

fun lex_less :: "int list \<Rightarrow> int list \<Rightarrow> bool" where
  "lex_less (a # as) (b # bs) = (a < b \<or> (a = b \<and> lex_less as bs))"
| "lex_less as bs = False"

text \<open>
  The bit-width contract: rw_counter 32 bits, tag 4 bits, id 28 bits, address 160 bits,
  field_tag 5 bits, ten address limbs of 16 bits, 32 storage-key bytes.
\<close>

definition within_declared_widths :: "row \<Rightarrow> bool" where
  "within_declared_widths r =
     (0 \<le> rw_counter r \<and> rw_counter r < 2 ^ 32
    \<and> 0 \<le> tag r \<and> tag r < 2 ^ 4
    \<and> 0 \<le> row_id r \<and> row_id r < 2 ^ 28
    \<and> 0 \<le> address r \<and> address r < 2 ^ 160
    \<and> 0 \<le> field_tag r \<and> field_tag r < 2 ^ 5
    \<and> length (address_limbs r) = 10 \<and> list_all (\<lambda>l. 0 \<le> l \<and> l < 2 ^ 16) (address_limbs r)
    \<and> length (storage_key_bytes r) = 32
    \<and> list_all (\<lambda>b. 0 \<le> b \<and> b < 2 ^ 8) (storage_key_bytes r))"

text \<open>The per-tag rule set the validator dispatches to, one for each of the twelve tags.\<close>

fun per_tag_checker :: "Tag \<Rightarrow> env \<Rightarrow> row \<Rightarrow> row \<Rightarrow> MPTTableRow set \<Rightarrow> result" where
  "per_tag_checker Start e r r_prev tables = check_start r r_prev"
| "per_tag_checker Memory e r r_prev tables = check_memory r r_prev"
| "per_tag_checker Stack e r r_prev tables = check_stack e r r_prev"
| "per_tag_checker Storage e r r_prev tables = check_storage e r r_prev tables"
| "per_tag_checker CallContext e r r_prev tables = check_call_context r r_prev"
| "per_tag_checker Account e r r_prev tables = check_account e r r_prev tables"
| "per_tag_checker TxRefund e r r_prev tables = check_tx_refund r r_prev"
| "per_tag_checker TxAccessListAccount e r r_prev tables = check_tx_access_list_account r r_prev"
| "per_tag_checker TxAccessListAccountStorage e r r_prev tables =
     check_tx_access_list_account_storage r r_prev"
| "per_tag_checker AccountDestructed e r r_prev tables = check_account_destructed r r_prev"
| "per_tag_checker TxLog e r r_prev tables = check_tx_log r r_prev"
| "per_tag_checker TxReceipt e r r_prev tables = check_tx_receipt e r r_prev"

text \<open>The number of Storage and Account operations in a list, as the builder tests them.\<close>

definition mpt_op_count :: "env \<Rightarrow> operation list \<Rightarrow> nat" where
  "mpt_op_count e ops =
     length (filter (\<lambda>op. FQ e (op_tag op) = FQ e (Tag_value Storage)
                        \<or> FQ e (op_tag op) = FQ e (Tag_value Account)) ops)"

subsection \<open>Concrete inputs\<close>

text \<open>
  An instance of the parameters: the order of the scalar field of BN254 as the field
  modulus, and values for the enumeration members.
\<close>

definition ex_env :: env where
  "ex_env = \<lparr>field_modulus =
       21888242871839275222246405745257275088548364400416034343698204186575808495617,
     MPTTableTag_Storage = 4, PostStateOrStatus = 1, CumulativeGasUsed = 2, RW_Read = 0\<rparr>"

definition zero_limbs :: "int list" where
  "zero_limbs = [0, 0, 0, 0, 0, 0, 0, 0, 0, 0]"

definition zero_bytes :: "int list" where
  "zero_bytes = [0, 0, 0, 0, 0, 0, 0, 0, 0, 0, 0, 0, 0, 0, 0, 0,
                 0, 0, 0, 0, 0, 0, 0, 0, 0, 0, 0, 0, 0, 0, 0, 0]"

definition start_row :: row where
  "start_row = \<lparr>rw_counter = 0, is_write = 0, keys = (1, 0, 0, 0, 0),
     key2_limbs = zero_limbs, key4_bytes = zero_bytes, row_value = 0, auxs = 0,
     mpt_counter = 0\<rparr>"

definition memory_write :: row where
  "memory_write = \<lparr>rw_counter = 1, is_write = 1, keys = (2, 1, 0, 0, 0),
     key2_limbs = zero_limbs, key4_bytes = zero_bytes, row_value = 5, auxs = 0,
     mpt_counter = 0\<rparr>"

definition memory_read :: row where
  "memory_read = \<lparr>rw_counter = 2, is_write = 0, keys = (2, 1, 0, 0, 0),
     key2_limbs = zero_limbs, key4_bytes = zero_bytes, row_value = 5, auxs = 0,
     mpt_counter = 0\<rparr>"

definition memory_first_read :: row where
  "memory_first_read = \<lparr>rw_counter = 3, is_write = 0, keys = (2, 1, 3, 0, 0),
     key2_limbs = 3 # tl zero_limbs, key4_bytes = zero_bytes, row_value = 0, auxs = 0,
     mpt_counter = 0\<rparr>"

definition stack_write_5 :: row where
  "stack_write_5 = \<lparr>rw_counter = 4, is_write = 1, keys = (3, 1, 5, 0, 0),
     key2_limbs = 5 # tl zero_limbs, key4_bytes = zero_bytes, row_value = 9, auxs = 0,
     mpt_counter = 0\<rparr>"

definition stack_write_6 :: row where
  "stack_write_6 = \<lparr>rw_counter = 5, is_write = 1, keys = (3, 1, 6, 0, 0),
     key2_limbs = 6 # tl zero_limbs, key4_bytes = zero_bytes, row_value = 8, auxs = 0,
     mpt_counter = 0\<rparr>"

text \<open>
  A Storage write of value 9 to key 3 of address 10 (committed value 0), an Account
  write of value 1 to field 1 of address 10, and the table that holds both updates.
\<close>

definition storage_write :: row where
  "storage_write = \<lparr>rw_counter = 6, is_write = 1, keys = (4, 1, 10, 0, 3),
     key2_limbs = 10 # tl zero_limbs, key4_bytes = 3 # tl zero_bytes, row_value = 9, auxs = 0,
     mpt_counter = 1\<rparr>"

definition account_write :: row where
  "account_write = \<lparr>rw_counter = 7, is_write = 1, keys = (6, 0, 10, 1, 0),
     key2_limbs = 10 # tl zero_limbs, key4_bytes = zero_bytes, row_value = 1, auxs = 0,
     mpt_counter = 2\<rparr>"

definition storage_entry :: MPTTableRow where
  "storage_entry = \<lparr>counter = 1, target = 4, mpt_address = 10, mpt_key = 3, mpt_value = 9,
     value_prev = 0\<rparr>"

definition account_entry :: MPTTableRow where
  "account_entry = \<lparr>counter = 2, target = 1, mpt_address = 10, mpt_key = 0, mpt_value = 1,
     value_prev = 0\<rparr>"

definition ex_table :: "MPTTableRow set" where
  "ex_table = {storage_entry, account_entry}"

definition storage_op :: operation where
  "storage_op = \<lparr>op_rw_counter = 6, op_rw = 1, op_tag = 4, op_id = 1, op_address = 10,
     op_field_tag = 0, op_storage_key = 3, op_value = 9, op_aux0 = 0\<rparr>"

definition account_op :: operation where
  "account_op = \<lparr>op_rw_counter = 7, op_rw = 1, op_tag = 6, op_id = 0, op_address = 10,
     op_field_tag = 1, op_storage_key = 0, op_value = 1, op_aux0 = 0\<rparr>"

text \<open>Two TxReceipt rows, for the transactions 2047 and 2048.\<close>

definition receipt_2047 :: row where
  "receipt_2047 = \<lparr>rw_counter = 8, is_write = 1, keys = (12, 2047, 0, 1, 0),
     key2_limbs = zero_limbs, key4_bytes = zero_bytes, row_value = 1, auxs = 0,
     mpt_counter = 0\<rparr>"

definition receipt_2048 :: row where
  "receipt_2048 = \<lparr>rw_counter = 9, is_write = 1, keys = (12, 2048, 0, 1, 0),
     key2_limbs = zero_limbs, key4_bytes = zero_bytes, row_value = 1, auxs = 0,
     mpt_counter = 0\<rparr>"

text \<open>
  Two TxAccessListAccountStorage rows of transaction 1: the first for address 2 and
  storage key 0, the second for address 1 and storage key \<open>2 ^ 48\<close> (byte 6 is 1); the
  challenge is 7, so the second row's storage_key is \<open>7 ^ 6\<close>.
\<close>

definition access_addr2 :: row where
  "access_addr2 = \<lparr>rw_counter = 1, is_write = 1, keys = (9, 1, 2, 0, 0),
     key2_limbs = 2 # tl zero_limbs, key4_bytes = zero_bytes, row_value = 1, auxs = 0,
     mpt_counter = 0\<rparr>"

definition access_addr1 :: row where
  "access_addr1 = \<lparr>rw_counter = 2, is_write = 1, keys = (9, 1, 1, 0, 117649),
     key2_limbs = 1 # tl zero_limbs,
     key4_bytes = [0, 0, 0, 0, 0, 0, 1, 0, 0, 0, 0, 0, 0, 0, 0, 0,
                   0, 0, 0, 0, 0, 0, 0, 0, 0, 0, 0, 0, 0, 0, 0, 0],
     row_value = 1, auxs = 0, mpt_counter = 0\<rparr>"

section \<open>Statements, blocks and keys\<close>

lemma block_Cons_ok: "block (s # ss) = Inr () \<longleftrightarrow> s = Inr () \<and> block ss = Inr ()"
  by (cases s) auto

lemma block_ok_iff: "block ss = Inr () \<longleftrightarrow> (\<forall>s\<in>set ss. s = Inr ())"
  by (induction ss) (auto simp: block_Cons_ok simp del: block.simps(2))

lemma assert_that_ok: "assert_that rule b = Inr () \<longleftrightarrow> b"
  by (simp add: assert_that_def)

lemma if_then_ok: "if_then c s = Inr () \<longleftrightarrow> (c \<longrightarrow> s = Inr ())"
  by (simp add: if_then_def)

lemma assert_in_range_ok: "assert_in_range x lo hi = Inr () \<longleftrightarrow> lo \<le> x \<and> x \<le> hi"
  by (simp add: assert_in_range_def assert_that_ok)

lemma all_keys_eq_iff: "all_keys_eq r r_prev \<longleftrightarrow> keys r = keys r_prev"
  by (cases "keys r"; cases "keys r_prev")
     (auto simp: all_keys_eq_def tag_def row_id_def address_def field_tag_def storage_key_def)

lemmas stmt_ok = block_Cons_ok assert_that_ok if_then_ok assert_in_range_ok

lemma check_start_ok: "check_start r r_prev = Inr () \<longleftrightarrow> rw_counter r = 0 \<and> mpt_counter r = 0"
  by (simp add: check_start_def stmt_ok del: block.simps(2))

lemma check_state_row_ok:
  "check_state_row e r r_prev tables randomness = Inr () \<longleftrightarrow>
     (1 \<le> tag r \<and> tag r \<le> MAX_TAG)
   \<and> (0 \<le> row_id r \<and> row_id r \<le> MAX_ID)
   \<and> (0 \<le> field_tag r \<and> field_tag r \<le> MAX_FIELD_TAG)
   \<and> block (map (\<lambda>limb. assert_in_range limb 0 (2 ^ 16 - 1)) (address_limbs r)) = Inr ()
   \<and> assert_eq ''0.1'' (address r)
        (linear_combine e (address_limbs r) (FQ e (2 ^ 16)) False) = Inr ()
   \<and> assert_eq ''0.2'' (storage_key r)
        (linear_combine e (storage_key_bytes r) randomness True) = Inr ()
   \<and> (is_write r = 0 \<or> is_write r = 1)
   \<and> check_ordering e r r_prev = Inr ()
   \<and> (is_write r = 0 \<and> all_keys_eq r r_prev \<longrightarrow> row_value r = row_value r_prev)
   \<and> (tag r \<noteq> Tag_value Start \<longrightarrow>
        (if tag r = Tag_value Storage \<or> tag r = Tag_value Account
         then mpt_counter r = fq_add e (mpt_counter r_prev) 1
         else mpt_counter r = mpt_counter r_prev))
   \<and> (tag r \<noteq> Tag_value Start \<longrightarrow> rw_counter r \<noteq> 0)
   \<and> tag_dispatch e r r_prev tables = Inr ()"
  unfolding check_state_row_def
  by (simp only: stmt_ok block.simps(1) TAG_BITS_def ID_BITS_def) (auto simp: assert_that_ok)

section \<open>The claims\<close>

text \<open>
  C2, as the code has it. Every row that \<open>check_tx_receipt\<close> accepts has a transaction
  id in the range [1, 2048]: the last statement of the checker is
  \<open>assert_in_range(tx_id, 1, 2**11)\<close>, whose upper bound is inclusive. A row with an id
  outside [1, 2048] is rejected.
\<close>

theorem tx_receipt_id_range:
  assumes "check_tx_receipt e r r_prev = Inr ()"
  shows "1 \<le> row_id r \<and> row_id r \<le> 2048"
  using assms by (simp add: check_tx_receipt_def stmt_ok del: block.simps(2))

theorem tx_receipt_id_range_witness:
  "check_tx_receipt ex_env receipt_2047 receipt_2047 = Inr ()
   \<and> 1 \<le> row_id receipt_2047 \<and> row_id receipt_2047 \<le> 2048"
proof -
  have h: "check_tx_receipt ex_env receipt_2047 receipt_2047 = Inr ()"
    by code_simp
  from tx_receipt_id_range[OF h] h show ?thesis by simp
qed

text \<open>
  C2 as the claim states it (id in [1, 2047]) fails: the TxReceipt row of transaction
  2048 that follows the one of transaction 2047 is accepted by \<open>check_tx_receipt\<close>, and
  by \<open>check_state_row\<close> as a whole.
\<close>

theorem tx_receipt_id_2048_accepted:
  "check_tx_receipt ex_env receipt_2048 receipt_2047 = Inr ()
   \<and> check_state_row ex_env receipt_2048 receipt_2047 {} 7 = Inr ()
   \<and> tag receipt_2048 = Tag_value TxReceipt
   \<and> row_id receipt_2048 = 2048 \<and> \<not> row_id receipt_2048 \<le> 2047"
  by code_simp

text \<open>
  C3. \<open>check_storage\<close> accepts a row only if the table holds the entry with counter the
  row's mpt_counter, target Storage, the row's address, storage_key and value, and
  value_prev the previous row's value when the five keys of both rows are equal and the
  row's committed value \<open>auxs[0]\<close> otherwise. \<open>check_account\<close> accepts a row only if the
  table holds the entry built by the same rule with target the row's field_tag and key
  0. So a missing or mismatched entry rejects the row.
\<close>

theorem lookup_required:
  "(check_storage e r r_prev tables = Inr () \<longrightarrow>
      \<lparr>counter = mpt_counter r, target = FQ e (MPTTableTag_Storage e), mpt_address = address r,
       mpt_key = storage_key r, mpt_value = row_value r,
       value_prev = (if keys r = keys r_prev then row_value r_prev else auxs r)\<rparr> \<in> tables)
 \<and> (check_account e r r_prev tables = Inr () \<longrightarrow>
      \<lparr>counter = mpt_counter r, target = field_tag r, mpt_address = address r,
       mpt_key = 0, mpt_value = row_value r,
       value_prev = (if keys r = keys r_prev then row_value r_prev else auxs r)\<rparr> \<in> tables)"
  by (simp add: check_storage_def check_account_def stmt_ok lookup_stmt_def lookup_def
      mpt_storage_lookup_def mpt_account_lookup_def all_keys_eq_iff FQ_def del: block.simps(2))

theorem lookup_required_witness:
  "check_storage ex_env storage_write start_row ex_table = Inr ()
   \<and> check_account ex_env account_write storage_write ex_table = Inr ()
   \<and> storage_entry \<in> ex_table \<and> account_entry \<in> ex_table
   \<and> check_storage ex_env storage_write start_row {account_entry} = Inl LookupUnsatFailure"
proof -
  have h: "check_storage ex_env storage_write start_row ex_table = Inr ()"
    and k: "check_account ex_env account_write storage_write ex_table = Inr ()"
    and m: "check_storage ex_env storage_write start_row {account_entry} = Inl LookupUnsatFailure"
    by code_simp+
  from lookup_required[of ex_env storage_write start_row ex_table] h
    lookup_required[of ex_env account_write storage_write ex_table] k m
  show ?thesis by (simp add: ex_table_def)
qed

text \<open>
  C4. For every pair of rows that \<open>check_state_row\<close> accepts: if the row has
  \<open>is_write = 0\<close> and its five keys equal the previous row's keys, then its value equals
  the previous row's value.
\<close>

theorem read_consistency:
  assumes "check_state_row e r r_prev tables randomness = Inr ()"
  shows "is_write r = 0 \<and> keys r = keys r_prev \<longrightarrow> row_value r = row_value r_prev"
  using assms by (simp add: check_state_row_ok all_keys_eq_iff)

theorem read_consistency_witness:
  "check_state_row ex_env memory_read memory_write {} 7 = Inr ()
   \<and> is_write memory_read = 0 \<and> keys memory_read = keys memory_write
   \<and> row_value memory_read = row_value memory_write"
proof -
  have h: "check_state_row ex_env memory_read memory_write {} 7 = Inr ()"
    by code_simp
  from read_consistency[OF h] h show ?thesis
    by (simp add: memory_read_def memory_write_def)
qed

text \<open>
  C5, as the code has it. For every pair of rows that \<open>check_state_row\<close> accepts: when the
  row's tag is Storage or Account its mpt_counter is the previous row's plus 1 (in the
  field); when its tag is any other tag but Start its mpt_counter equals the previous
  row's; when its tag is Start its mpt_counter is 0, whatever the previous row's is.
\<close>

theorem mpt_counter_step:
  assumes "check_state_row e r r_prev tables randomness = Inr ()"
  shows "(tag r = Tag_value Storage \<or> tag r = Tag_value Account \<longrightarrow>
            mpt_counter r = fq_add e (mpt_counter r_prev) 1)
       \<and> (tag r \<noteq> Tag_value Storage \<and> tag r \<noteq> Tag_value Account \<and> tag r \<noteq> Tag_value Start \<longrightarrow>
            mpt_counter r = mpt_counter r_prev)
       \<and> (tag r = Tag_value Start \<longrightarrow> mpt_counter r = 0)"
proof -
  from assms have c: "tag r \<noteq> Tag_value Start \<longrightarrow>
        (if tag r = Tag_value Storage \<or> tag r = Tag_value Account
         then mpt_counter r = fq_add e (mpt_counter r_prev) 1
         else mpt_counter r = mpt_counter r_prev)"
    and d: "tag_dispatch e r r_prev tables = Inr ()"
    by (simp_all add: check_state_row_ok)
  from d have s: "tag r = Tag_value Start \<longrightarrow> mpt_counter r = 0"
    by (auto simp: tag_dispatch_def check_start_ok)
  from c s show ?thesis by auto
qed

theorem mpt_counter_step_witness:
  "check_state_row ex_env storage_write stack_write_6 ex_table 7 = Inr ()
   \<and> tag storage_write = Tag_value Storage
   \<and> mpt_counter storage_write = fq_add ex_env (mpt_counter stack_write_6) 1
   \<and> check_state_row ex_env stack_write_6 stack_write_5 {} 7 = Inr ()
   \<and> tag stack_write_6 = Tag_value Stack
   \<and> mpt_counter stack_write_6 = mpt_counter stack_write_5"
proof -
  have h: "check_state_row ex_env storage_write stack_write_6 ex_table 7 = Inr ()"
    and k: "check_state_row ex_env stack_write_6 stack_write_5 {} 7 = Inr ()"
    by code_simp+
  have t: "tag storage_write = Tag_value Storage" "tag stack_write_6 = Tag_value Stack"
    by (simp_all add: storage_write_def stack_write_6_def tag_def)
  from mpt_counter_step[OF h] mpt_counter_step[OF k] h k t show ?thesis by simp
qed

text \<open>
  C5 as the claim states it fails for the Start tag: a Start row is accepted after a row
  whose mpt_counter is 2, and its own mpt_counter is 0.
\<close>

theorem start_row_resets_mpt_counter:
  "check_state_row ex_env start_row account_write ex_table 7 = Inr ()
   \<and> tag start_row = Tag_value Start
   \<and> mpt_counter start_row \<noteq> mpt_counter account_write"
  by code_simp

text \<open>
  C6. For every row that \<open>check_stack\<close> accepts: if its five keys differ from the
  previous row's then \<open>is_write = 1\<close>; its address (the stack pointer) is in [0, 1023];
  and when its tag and id equal the previous row's, the difference of the two stack
  pointers in the field is 0 or 1. When moreover the previous row's pointer is in
  [0, 1023] and the field modulus is above 1024, the pointer is the previous one or the
  previous one plus 1.
\<close>

theorem check_stack_accepted:
  assumes "check_stack e r r_prev = Inr ()"
  shows "(keys r \<noteq> keys r_prev \<longrightarrow> is_write r = 1)
       \<and> 0 \<le> address r \<and> address r \<le> 1023
       \<and> (tag r = tag r_prev \<and> row_id r = row_id r_prev \<longrightarrow>
            fq_sub e (address r) (address r_prev) = 0 \<or> fq_sub e (address r) (address r_prev) = 1)
       \<and> (tag r = tag r_prev \<and> row_id r = row_id r_prev
            \<and> 0 \<le> address r_prev \<and> address r_prev \<le> 1023 \<and> 1024 < field_modulus e \<longrightarrow>
            address r = address r_prev \<or> address r = address r_prev + 1)"
proof -
  from assms have a: "keys r \<noteq> keys r_prev \<longrightarrow> is_write r = 1"
    and b: "0 \<le> address r \<and> address r \<le> 1023"
    and c: "tag r = tag r_prev \<and> row_id r = row_id r_prev \<longrightarrow>
            0 \<le> fq_sub e (address r) (address r_prev) \<and> fq_sub e (address r) (address r_prev) \<le> 1"
    by (simp_all add: check_stack_def stmt_ok all_keys_eq_iff MAX_STACK_PTR_def del: block.simps(2))
  have d: "address r = address r_prev \<or> address r = address r_prev + 1"
    if h: "tag r = tag r_prev \<and> row_id r = row_id r_prev"
      and p: "0 \<le> address r_prev" "address r_prev \<le> 1023" "1024 < field_modulus e"
  proof -
    let ?d = "address r - address r_prev" and ?p = "field_modulus e"
    from c h have m: "?d mod ?p = 0 \<or> ?d mod ?p = 1"
      by (auto simp: fq_sub_def)
    have rng: "- ?p < ?d" "?d < ?p" using b p by linarith+
    show ?thesis
    proof (cases "0 \<le> ?d")
      case True
      with rng have "?d mod ?p = ?d" by simp
      with m show ?thesis by auto
    next
      case False
      with rng have "?d mod ?p = ?d + ?p"
        by (smt (verit) mod_add_self2 mod_pos_pos_trivial)
      with m False b p show ?thesis by linarith
    qed
  qed
  from a b c d show ?thesis by force
qed

theorem check_stack_accepted_witness:
  "check_stack ex_env stack_write_6 stack_write_5 = Inr ()
   \<and> keys stack_write_6 \<noteq> keys stack_write_5 \<and> is_write stack_write_6 = 1
   \<and> tag stack_write_6 = tag stack_write_5 \<and> row_id stack_write_6 = row_id stack_write_5
   \<and> address stack_write_6 \<le> 1023
   \<and> fq_sub ex_env (address stack_write_6) (address stack_write_5) = 1
   \<and> address stack_write_6 = address stack_write_5 + 1"
proof -
  have h: "check_stack ex_env stack_write_6 stack_write_5 = Inr ()"
    by code_simp
  have f: "fq_sub ex_env (address stack_write_6) (address stack_write_5) = 1"
    by code_simp
  from check_stack_accepted[OF h] h f show ?thesis
    by (simp add: stack_write_6_def stack_write_5_def tag_def row_id_def address_def
        zero_limbs_def)
qed

text \<open>
  C7. For every row that \<open>check_memory\<close> accepts: field_tag and storage_key are 0; if its
  five keys differ from the previous row's and \<open>is_write = 0\<close> then its value is 0; its
  address is in [0, 2^32 - 1]; and its value is in [0, 255].
\<close>

theorem check_memory_accepted:
  assumes "check_memory r r_prev = Inr ()"
  shows "field_tag r = 0 \<and> storage_key r = 0
       \<and> (keys r \<noteq> keys r_prev \<and> is_write r = 0 \<longrightarrow> row_value r = 0)
       \<and> 0 \<le> address r \<and> address r \<le> 2 ^ 32 - 1
       \<and> 0 \<le> row_value r \<and> row_value r \<le> 255"
  using assms
  by (simp add: check_memory_def stmt_ok all_keys_eq_iff MAX_MEMORY_ADDRESS_def
      del: block.simps(2))

theorem check_memory_accepted_witness:
  "check_memory memory_first_read memory_read = Inr ()
   \<and> keys memory_first_read \<noteq> keys memory_read \<and> is_write memory_first_read = 0
   \<and> row_value memory_first_read = 0
   \<and> field_tag memory_first_read = 0 \<and> storage_key memory_first_read = 0
   \<and> address memory_first_read \<le> 2 ^ 32 - 1"
proof -
  have h: "check_memory memory_first_read memory_read = Inr ()"
    by code_simp
  from check_memory_accepted[OF h] h show ?thesis
    by (simp add: memory_first_read_def memory_read_def)
qed

section \<open>The exceptions a checker can raise\<close>

lemma block_neq: "list_all (\<lambda>s. s \<noteq> Inl x) ss \<Longrightarrow> block ss \<noteq> Inl x"
  by (induction ss) (auto split: sum.splits)

lemma assert_that_neq [simp]:
  "assert_that rule b \<noteq> Inl (ValueError m)" "assert_that rule b \<noteq> Inl LookupUnsatFailure"
  by (simp_all add: assert_that_def)

lemma assert_in_range_neq [simp]:
  "assert_in_range x lo hi \<noteq> Inl (ValueError m)"
  "assert_in_range x lo hi \<noteq> Inl LookupUnsatFailure"
  by (simp_all add: assert_in_range_def)

lemma if_then_neq [simp]: "s \<noteq> Inl x \<Longrightarrow> if_then c s \<noteq> Inl x"
  by (simp add: if_then_def)

lemma limbs_block_neq [simp]:
  "block (map (\<lambda>limb. assert_in_range limb lo hi) xs) \<noteq> Inl (ValueError m)"
  by (induction xs) (auto simp: assert_in_range_def assert_that_def)

lemma lookup_stmt_neq [simp]: "lookup_stmt (lookup table q) \<noteq> Inl (ValueError m)"
  by (simp add: lookup_stmt_def lookup_def)

lemma assert_eq_neq [simp]:
  "assert_eq rule x (linear_combine e seq base range_check) \<noteq> Inl (ValueError m)"
  by (simp add: assert_eq_def linear_combine_def)

lemma from_bytes_little_neq:
  "from_bytes_little bs \<noteq> Inl (ValueError ''Unreacheable'')"
  by (induction bs) (auto split: sum.splits)

lemma lt_loop_neq: "lt_loop lt ls rs \<noteq> Inl (ValueError m)"
  by (induction lt ls rs rule: lt_loop.induct) auto

lemma verify_neq: "verify lhs rhs \<noteq> Inl (ValueError m)"
  by (cases "(lhs, rhs)" rule: verify.cases) (auto simp: lt_loop_neq split: sum.splits)

lemma keys_rwc_to_limbs_in_order_neq:
  "keys_rwc_to_limbs_in_order e r \<noteq> Inl (ValueError ''Unreacheable'')"
  using from_bytes_little_neq[of "storage_key_bytes r"]
  by (auto simp: keys_rwc_to_limbs_in_order_def Let_def split: sum.splits)

lemma check_ordering_neq:
  "check_ordering e r r_prev \<noteq> Inl (ValueError ''Unreacheable'')"
  using keys_rwc_to_limbs_in_order_neq[of e r] keys_rwc_to_limbs_in_order_neq[of e r_prev]
  by (auto simp: check_ordering_def if_then_def verify_neq split: sum.splits)

lemma per_tag_checker_neq:
  "per_tag_checker tg e r r_prev tables \<noteq> Inl (ValueError m)"
  by (cases tg)
     (simp_all add: check_start_def check_memory_def check_stack_def check_storage_def
        check_call_context_def check_account_def check_tx_refund_def
        check_tx_access_list_account_def check_tx_access_list_account_storage_def
        check_account_destructed_def check_tx_log_def check_tx_receipt_def
        mpt_storage_lookup_def mpt_account_lookup_def block_neq
        del: block.simps(2))

lemma tag_dispatch_per_tag:
  "tag r = Tag_value tg \<Longrightarrow> tag_dispatch e r r_prev tables = per_tag_checker tg e r r_prev tables"
  by (cases tg) (simp_all add: tag_dispatch_def)

lemma tag_in_range_ex:
  assumes "1 \<le> t" and "t \<le> MAX_TAG"
  shows "\<exists>tg. t = Tag_value tg"
proof -
  from assms have "t = 1 \<or> t = 2 \<or> t = 3 \<or> t = 4 \<or> t = 5 \<or> t = 6 \<or> t = 7 \<or> t = 8
      \<or> t = 9 \<or> t = 10 \<or> t = 11 \<or> t = 12"
    unfolding MAX_TAG_def by arith
  then show ?thesis
    by (metis Tag_value.simps)
qed

lemma Tag_value_inj: "Tag_value a = Tag_value b \<Longrightarrow> a = b"
  by (cases a; cases b) simp_all

lemma block_snoc:
  "block (ss @ [s]) = (case block ss of Inl err \<Rightarrow> Inl err | Inr u \<Rightarrow> s)"
  by (induction ss) (auto split: sum.splits)

lemma check_state_row_split:
  "check_state_row e r r_prev tables randomness =
     (case shared_checks e r r_prev randomness of
        Inl err \<Rightarrow> Inl err
      | Inr u \<Rightarrow> tag_dispatch e r r_prev tables)"
  unfolding check_state_row_def shared_checks_def
  using block_snoc[of "[assert_in_range (tag r) 1 MAX_TAG,
       assert_in_range (row_id r) 0 MAX_ID,
       assert_in_range (field_tag r) 0 MAX_FIELD_TAG,
       block (map (\<lambda>limb. assert_in_range limb 0 (2 ^ 16 - 1)) (address_limbs r)),
       assert_eq ''0.1'' (address r) (linear_combine e (address_limbs r) (FQ e (2 ^ 16)) False),
       assert_eq ''0.2'' (storage_key r) (linear_combine e (storage_key_bytes r) randomness True),
       assert_that ''0.3'' (is_write r = 0 \<or> is_write r = 1),
       assert_that ''0.4 TAG_BITS + ID_BITS'' (TAG_BITS + ID_BITS = 2 * 16),
       check_ordering e r r_prev,
       if_then (is_write r = 0 \<and> all_keys_eq r r_prev)
         (assert_that ''0.5'' (row_value r = row_value r_prev)),
       if_then (tag r \<noteq> Tag_value Start)
         (if tag r = Tag_value Storage \<or> tag r = Tag_value Account
          then assert_that ''7 increment'' (mpt_counter r = fq_add e (mpt_counter r_prev) 1)
          else assert_that ''7 keep'' (mpt_counter r = mpt_counter r_prev)),
       if_then (tag r \<noteq> Tag_value Start)
         (assert_that ''8'' (rw_counter r \<noteq> 0))]" "tag_dispatch e r r_prev tables"]
  by (simp del: block.simps(2))

lemma shared_checks_tag_range:
  "shared_checks e r r_prev randomness = Inr () \<Longrightarrow> 1 \<le> tag r \<and> tag r \<le> MAX_TAG"
  by (simp add: shared_checks_def block_Cons_ok assert_in_range_ok del: block.simps(2))

text \<open>
  C10. The dispatch at the end of \<open>check_state_row\<close> is total. For every row whose
  shared checks pass (among them the range check of the tag in [1, 12]), the tag is the
  value of exactly one of the twelve tags and the outcome of \<open>check_state_row\<close> is the
  outcome of the checker of that tag: the dispatch reaches that checker and not its
  last branch. When a shared check raises, \<open>check_state_row\<close> raises the same exception
  and reaches no checker. In every case \<open>check_state_row\<close> does not raise
  \<open>ValueError("Unreacheable")\<close>; and the range check of the tag alone already makes
  the dispatch run the checker of the one tag.
\<close>

theorem dispatch_total:
  "(shared_checks e r r_prev randomness = Inr () \<longrightarrow>
        (\<exists>!tg. tag r = Tag_value tg)
      \<and> (\<forall>tg. tag r = Tag_value tg \<longrightarrow>
            check_state_row e r r_prev tables randomness
              = per_tag_checker tg e r r_prev tables))
   \<and> (\<forall>err. shared_checks e r r_prev randomness = Inl err \<longrightarrow>
        check_state_row e r r_prev tables randomness = Inl err)
   \<and> check_state_row e r r_prev tables randomness \<noteq> Inl (ValueError ''Unreacheable'')
   \<and> (assert_in_range (tag r) 1 MAX_TAG = Inr () \<longrightarrow>
        (\<exists>!tg. tag r = Tag_value tg)
      \<and> (\<forall>tg. tag r = Tag_value tg \<longrightarrow>
            tag_dispatch e r r_prev tables = per_tag_checker tg e r r_prev tables)
      \<and> tag_dispatch e r r_prev tables \<noteq> Inl (ValueError ''Unreacheable''))"
proof -
  have in_range: "(\<exists>!tg. tag r = Tag_value tg)
      \<and> (\<forall>tg. tag r = Tag_value tg \<longrightarrow>
            tag_dispatch e r r_prev tables = per_tag_checker tg e r r_prev tables)
      \<and> tag_dispatch e r r_prev tables \<noteq> Inl (ValueError ''Unreacheable'')"
    if "assert_in_range (tag r) 1 MAX_TAG = Inr ()"
  proof -
    from that obtain tg where tg: "tag r = Tag_value tg"
      using tag_in_range_ex by (auto simp: assert_in_range_ok)
    then have "\<exists>!tg. tag r = Tag_value tg"
      by (auto dest: Tag_value_inj)
    moreover from tg have "tag_dispatch e r r_prev tables \<noteq> Inl (ValueError ''Unreacheable'')"
      by (simp add: tag_dispatch_per_tag per_tag_checker_neq)
    ultimately show ?thesis
      by (simp add: tag_dispatch_per_tag)
  qed
  have passed: "(\<exists>!tg. tag r = Tag_value tg)
      \<and> (\<forall>tg. tag r = Tag_value tg \<longrightarrow>
            check_state_row e r r_prev tables randomness
              = per_tag_checker tg e r r_prev tables)"
    if ok: "shared_checks e r r_prev randomness = Inr ()"
  proof -
    from shared_checks_tag_range[OF ok]
    have "assert_in_range (tag r) 1 MAX_TAG = Inr ()"
      by (simp add: assert_in_range_ok)
    from in_range[OF this] ok show ?thesis
      by (simp add: check_state_row_split)
  qed
  have raised: "check_state_row e r r_prev tables randomness = Inl err"
    if "shared_checks e r r_prev randomness = Inl err" for err
    using that by (simp add: check_state_row_split)
  have "check_state_row e r r_prev tables randomness \<noteq> Inl (ValueError ''Unreacheable'')"
  proof (cases "assert_in_range (tag r) 1 MAX_TAG = Inr ()")
    case True
    with in_range have "tag_dispatch e r r_prev tables \<noteq> Inl (ValueError ''Unreacheable'')"
      by simp
    then show ?thesis
      unfolding check_state_row_def
      by (intro block_neq) (simp add: check_ordering_neq)
  next
    case False
    then have "assert_in_range (tag r) 1 MAX_TAG = Inl (AssertionError ''assert_in_range'')"
      by (auto simp: assert_in_range_def assert_that_def)
    then show ?thesis
      by (simp add: check_state_row_def)
  qed
  with in_range passed raised show ?thesis by blast
qed

theorem dispatch_total_witness:
  "shared_checks ex_env memory_read memory_write 7 = Inr ()
   \<and> assert_in_range (tag memory_read) 1 MAX_TAG = Inr ()
   \<and> tag memory_read = Tag_value Memory
   \<and> check_state_row ex_env memory_read memory_write {} 7
       = check_memory memory_read memory_write
   \<and> tag_dispatch ex_env memory_read memory_write {} = check_memory memory_read memory_write
   \<and> tag_dispatch ex_env memory_read memory_write {} \<noteq> Inl (ValueError ''Unreacheable'')
   \<and> check_state_row ex_env memory_read memory_write {} 7 \<noteq> Inl (ValueError ''Unreacheable'')
   \<and> shared_checks ex_env memory_write memory_read 7 = Inl (AssertionError ''LowerThanGadget'')
   \<and> check_state_row ex_env memory_write memory_read {} 7 = Inl (AssertionError ''LowerThanGadget'')"
proof -
  have s: "shared_checks ex_env memory_read memory_write 7 = Inr ()"
    and h: "assert_in_range (tag memory_read) 1 MAX_TAG = Inr ()"
    and t: "tag memory_read = Tag_value Memory"
    and f: "shared_checks ex_env memory_write memory_read 7 = Inl (AssertionError ''LowerThanGadget'')"
    by code_simp+
  note d = dispatch_total[of ex_env memory_read memory_write 7 "{}"]
  note d' = dispatch_total[of ex_env memory_write memory_read 7 "{}"]
  from d s t have c: "check_state_row ex_env memory_read memory_write {} 7
      = per_tag_checker Memory ex_env memory_read memory_write {}"
    by blast
  from d h t have g: "tag_dispatch ex_env memory_read memory_write {}
      = per_tag_checker Memory ex_env memory_read memory_write {}"
    by blast
  from d' f have "check_state_row ex_env memory_write memory_read {} 7
      = Inl (AssertionError ''LowerThanGadget'')"
    by blast
  with d s h t f c g show ?thesis
    by simp
qed

section \<open>The row builder and the projection\<close>

lemma mpt_op_count_Cons:
  "mpt_op_count e (op # ops) =
     (if FQ e (op_tag op) = FQ e (Tag_value Storage) \<or> FQ e (op_tag op) = FQ e (Tag_value Account)
      then Suc (mpt_op_count e ops) else mpt_op_count e ops)"
  by (simp add: mpt_op_count_def)

lemma mpt_op_count_Nil: "mpt_op_count e [] = 0"
  by (simp add: mpt_op_count_def)

lemma op2row_Inr:
  assumes "op2row e c op randomness = Inr (r, c')"
  shows "mpt_counter r = c'"
    and "c' = (if FQ e (op_tag op) = FQ e (Tag_value Storage)
                  \<or> FQ e (op_tag op) = FQ e (Tag_value Account)
               then fq_add e c 1 else c)"
  using assms
  by (auto simp: op2row_def Let_def split: sum.splits prod.splits if_splits)

lemma assign_rows_length:
  "assign_rows e c ops randomness = Inr rows \<Longrightarrow> length rows = length ops"
  by (induction ops arbitrary: c rows) (auto split: sum.splits prod.splits)

lemma assign_rows_counter:
  "assign_rows e c ops randomness = Inr rows \<Longrightarrow> i < length rows \<Longrightarrow>
     mpt_counter (rows ! i) =
       (if mpt_op_count e (take (Suc i) ops) = 0 then c
        else (c + int (mpt_op_count e (take (Suc i) ops))) mod field_modulus e)"
proof (induction ops arbitrary: c rows i)
  case Nil
  then show ?case by simp
next
  case (Cons op ops)
  from Cons.prems(1) obtain r c' rows' where
    o: "op2row e c op randomness = Inr (r, c')"
    and a: "assign_rows e c' ops randomness = Inr rows'"
    and rows: "rows = r # rows'"
    by (auto split: sum.splits prod.splits)
  note f = op2row_Inr[OF o]
  show ?case
  proof (cases i)
    case 0
    with rows f show ?thesis
      by (auto simp: mpt_op_count_Cons mpt_op_count_Nil fq_add_def)
  next
    case (Suc j)
    with Cons.prems(2) rows have j: "j < length rows'" by simp
    let ?n = "mpt_op_count e (take (Suc j) ops)"
    from Cons.IH[OF a j] have ih:
      "mpt_counter (rows' ! j) = (if ?n = 0 then c' else (c' + int ?n) mod field_modulus e)" .
    show ?thesis
    proof (cases "FQ e (op_tag op) = FQ e (Tag_value Storage)
                \<or> FQ e (op_tag op) = FQ e (Tag_value Account)")
      case True
      with f(2) have c': "c' = (c + 1) mod field_modulus e" by (simp add: fq_add_def)
      have "((c + 1) mod field_modulus e + int ?n) mod field_modulus e
          = (c + int (Suc ?n)) mod field_modulus e"
        by (simp add: mod_add_left_eq add.assoc)
      with ih c' True Suc rows show ?thesis
        by (simp add: mpt_op_count_Cons)
    next
      case False
      with f(2) have "c' = c" by simp
      with ih False Suc rows show ?thesis
        by (simp add: mpt_op_count_Cons)
    qed
  qed
qed

lemma assign_state_circuit_counter:
  assumes "assign_state_circuit e ops randomness = Inr rows" and "i < length rows"
  shows "mpt_counter (rows ! i) = FQ e (int (mpt_op_count e (take (Suc i) ops)))"
  using assign_rows_counter[OF assms[unfolded assign_state_circuit_def]]
  by (simp add: FQ_def)

lemma mpt_rows_at_in_table:
  "i < length rows \<Longrightarrow> x \<in> set (mpt_rows_at e rows i) \<Longrightarrow> x \<in> set (mpt_rows e rows)"
  by (auto simp: mpt_rows_def)

lemma mpt_table_from_rows:
  "rows \<noteq> [] \<Longrightarrow> mpt_table_from_ops e (Rows rows) randomness = Inr (set (mpt_rows e rows))"
  by (cases rows) simp_all

lemma value_prev_rule:
  assumes "r_prev = (if i = 0 then r_init else rows ! (i - 1))"
    and "0 < i \<or> keys (rows ! 0) \<noteq> keys r_init"
  shows "(if i > 0 \<and> all_keys_eq (rows ! i) (rows ! (i - 1))
          then row_value (rows ! (i - 1)) else auxs (rows ! i))
       = (if all_keys_eq (rows ! i) r_prev then row_value r_prev else auxs (rows ! i))"
  using assms by (auto simp: all_keys_eq_iff)

lemma FQ_small: "0 \<le> n \<Longrightarrow> n < field_modulus e \<Longrightarrow> FQ e n = n"
  by (simp add: FQ_def)

lemma projected_storage_entry:
  assumes i: "i < length rows"
    and prev: "r_prev = (if i = 0 then r_init else rows ! (i - 1))"
    and first: "0 < i \<or> keys (rows ! 0) \<noteq> keys r_init"
    and p: "MAX_TAG < field_modulus e"
    and t: "tag (rows ! i) = Tag_value Storage"
  shows "\<lparr>counter = mpt_counter (rows ! i), target = FQ e (MPTTableTag_Storage e),
          mpt_address = address (rows ! i), mpt_key = storage_key (rows ! i),
          mpt_value = row_value (rows ! i),
          value_prev = (if all_keys_eq (rows ! i) r_prev then row_value r_prev
                        else auxs (rows ! i))\<rparr> \<in> set (mpt_rows e rows)"
proof -
  from p have "FQ e (Tag_value Storage) = Tag_value Storage"
    by (simp add: FQ_small MAX_TAG_def)
  with t have "tag (rows ! i) = FQ e (Tag_value Storage)" by simp
  then show ?thesis
    using value_prev_rule[OF prev first]
    by (intro mpt_rows_at_in_table[OF i]) (simp add: mpt_rows_at_def Let_def)
qed

lemma projected_account_entry:
  assumes i: "i < length rows"
    and prev: "r_prev = (if i = 0 then r_init else rows ! (i - 1))"
    and first: "0 < i \<or> keys (rows ! 0) \<noteq> keys r_init"
    and p: "MAX_TAG < field_modulus e"
    and t: "tag (rows ! i) = Tag_value Account"
  shows "\<lparr>counter = mpt_counter (rows ! i), target = field_tag (rows ! i),
          mpt_address = address (rows ! i), mpt_key = storage_key (rows ! i),
          mpt_value = row_value (rows ! i),
          value_prev = (if all_keys_eq (rows ! i) r_prev then row_value r_prev
                        else auxs (rows ! i))\<rparr> \<in> set (mpt_rows e rows)"
proof -
  from p have "FQ e (Tag_value Storage) = Tag_value Storage"
    "FQ e (Tag_value Account) = Tag_value Account"
    by (simp_all add: FQ_small MAX_TAG_def)
  with t have "tag (rows ! i) = FQ e (Tag_value Account)"
    "tag (rows ! i) \<noteq> FQ e (Tag_value Storage)" by simp_all
  then show ?thesis
    using value_prev_rule[OF prev first]
    by (intro mpt_rows_at_in_table[OF i]) (simp add: mpt_rows_at_def Let_def)
qed

text \<open>
  C9. Let \<open>rows\<close> be the rows \<open>assign_state_circuit\<close> builds from a list of operations
  and \<open>tables\<close> the table \<open>mpt_table_from_ops\<close> projects from \<open>rows\<close>, with a field
  modulus above the tag values. Take the row at index \<open>i\<close> with its predecessor in
  \<open>rows\<close> as previous row; for the first row the previous row is any row with other
  keys (such as a Start row). If the row is a Storage row, the lookup of
  \<open>check_storage\<close> finds its entry; if it is an Account row, \<open>check_account\<close> does not
  fail in its lookup, which finds its entry whenever it is reached (storage_key 0).
  The row's mpt_counter is the number of Storage and Account operations up to and
  including this one, as a field element, and there is one row per operation.
\<close>

theorem builder_projection_coherent:
  assumes rows: "assign_state_circuit e ops randomness = Inr rows"
    and tbl: "mpt_table_from_ops e (Rows rows) randomness = Inr tables"
    and i: "i < length rows"
    and prev: "r_prev = (if i = 0 then r_init else rows ! (i - 1))"
    and first: "0 < i \<or> keys (rows ! 0) \<noteq> keys r_init"
    and p: "MAX_TAG < field_modulus e"
  shows "(tag (rows ! i) = Tag_value Storage \<longrightarrow>
            lookup_stmt (mpt_storage_lookup e tables (mpt_counter (rows ! i)) (address (rows ! i))
              (storage_key (rows ! i)) (row_value (rows ! i))
              (if all_keys_eq (rows ! i) r_prev then row_value r_prev else auxs (rows ! i)))
              = Inr ()
          \<and> check_storage e (rows ! i) r_prev tables \<noteq> Inl LookupUnsatFailure)
       \<and> (tag (rows ! i) = Tag_value Account \<longrightarrow>
            check_account e (rows ! i) r_prev tables \<noteq> Inl LookupUnsatFailure
          \<and> (storage_key (rows ! i) = 0 \<longrightarrow>
               lookup_stmt (mpt_account_lookup e tables (mpt_counter (rows ! i))
                 (field_tag (rows ! i)) (address (rows ! i)) (row_value (rows ! i))
                 (if all_keys_eq (rows ! i) r_prev then row_value r_prev else auxs (rows ! i)))
                 = Inr ()))
       \<and> mpt_counter (rows ! i) = FQ e (int (mpt_op_count e (take (Suc i) ops)))
       \<and> length rows = length ops"
proof -
  from i have "rows \<noteq> []" by auto
  with tbl have tables: "tables = set (mpt_rows e rows)"
    by (simp add: mpt_table_from_rows)
  let ?r = "rows ! i"
  let ?vp = "if all_keys_eq ?r r_prev then row_value r_prev else auxs ?r"
  have st: "lookup_stmt (mpt_storage_lookup e tables (mpt_counter ?r) (address ?r)
              (storage_key ?r) (row_value ?r) ?vp) = Inr ()
          \<and> check_storage e ?r r_prev tables \<noteq> Inl LookupUnsatFailure"
    if t: "tag ?r = Tag_value Storage"
  proof -
    from projected_storage_entry[OF i prev first p t] tables
    have l: "lookup_stmt (mpt_storage_lookup e tables (mpt_counter ?r) (address ?r)
              (storage_key ?r) (row_value ?r) ?vp) = Inr ()"
      by (simp add: mpt_storage_lookup_def lookup_def lookup_stmt_def)
    then have "check_storage e ?r r_prev tables \<noteq> Inl LookupUnsatFailure"
      unfolding check_storage_def by (intro block_neq) simp
    with l show ?thesis by simp
  qed
  have ac: "check_account e ?r r_prev tables \<noteq> Inl LookupUnsatFailure
          \<and> (storage_key ?r = 0 \<longrightarrow>
               lookup_stmt (mpt_account_lookup e tables (mpt_counter ?r) (field_tag ?r)
                 (address ?r) (row_value ?r) ?vp) = Inr ())"
    if t: "tag ?r = Tag_value Account"
  proof (cases "storage_key ?r = 0")
    case True
    with projected_account_entry[OF i prev first p t] tables
    have l: "lookup_stmt (mpt_account_lookup e tables (mpt_counter ?r) (field_tag ?r)
                 (address ?r) (row_value ?r) ?vp) = Inr ()"
      by (simp add: mpt_account_lookup_def lookup_def lookup_stmt_def FQ_def)
    then have "check_account e ?r r_prev tables \<noteq> Inl LookupUnsatFailure"
      unfolding check_account_def by (intro block_neq) simp
    with l show ?thesis by simp
  next
    case False
    then show ?thesis
      by (simp add: check_account_def assert_that_def)
  qed
  from rows have len: "length rows = length ops"
    by (simp add: assign_state_circuit_def assign_rows_length)
  from st ac assign_state_circuit_counter[OF rows i] len show ?thesis
    by blast
qed

theorem builder_projection_coherent_witness:
  "assign_state_circuit ex_env [storage_op, account_op] 7 = Inr [storage_write, account_write]
   \<and> mpt_table_from_ops ex_env (Rows [storage_write, account_write]) 7 = Inr ex_table
   \<and> keys storage_write \<noteq> keys start_row
   \<and> MAX_TAG < field_modulus ex_env
   \<and> tag storage_write = Tag_value Storage
   \<and> check_storage ex_env storage_write start_row ex_table \<noteq> Inl LookupUnsatFailure
   \<and> mpt_counter storage_write = FQ ex_env (int (mpt_op_count ex_env [storage_op]))
   \<and> mpt_counter storage_write = 1
   \<and> tag account_write = Tag_value Account
   \<and> check_account ex_env account_write storage_write ex_table \<noteq> Inl LookupUnsatFailure
   \<and> mpt_counter account_write
       = FQ ex_env (int (mpt_op_count ex_env [storage_op, account_op]))
   \<and> mpt_counter account_write = 2"
proof -
  have a: "assign_state_circuit ex_env [storage_op, account_op] 7
             = Inr [storage_write, account_write]"
    by code_simp
  have b: "mpt_table_from_ops ex_env (Rows [storage_write, account_write]) 7 = Inr ex_table"
    by code_simp
  have c: "keys storage_write \<noteq> keys start_row" "MAX_TAG < field_modulus ex_env"
    "tag storage_write = Tag_value Storage" "mpt_counter storage_write = 1"
    "tag account_write = Tag_value Account" "mpt_counter account_write = 2"
    by code_simp+
  from builder_projection_coherent[OF a b, where i = 0 and r_init = start_row
      and r_prev = start_row]
    builder_projection_coherent[OF a b, where i = 1 and r_init = start_row
      and r_prev = storage_write] a b c
  show ?thesis by simp
qed

text \<open>
  C1 fails on the code. \<open>keys_rwc_to_limbs_in_order\<close> shifts the packed value by 32
  bits before it adds the 256-bit integer of the storage key, so the storage key
  overlaps field_tag, address and id. The two rows below are within the declared bit
  widths; the first has the greater address, so its composite key is the greater one;
  yet the ordering check, and \<open>check_state_row\<close> as a whole, accept the second row after
  the first.
\<close>

theorem ordering_accepts_unsorted_rows:
  "within_declared_widths access_addr2 \<and> within_declared_widths access_addr1
   \<and> tag access_addr1 = Tag_value TxAccessListAccountStorage
   \<and> check_ordering ex_env access_addr1 access_addr2 = Inr ()
   \<and> check_state_row ex_env access_addr1 access_addr2 {} 7 = Inr ()
   \<and> composite_key access_addr2 = [9, 1, 2, 0, 0, 1]
   \<and> composite_key access_addr1 = [9, 1, 1, 0, 2 ^ 48, 2]
   \<and> \<not> lex_less (composite_key access_addr2) (composite_key access_addr1)"
  by code_simp


end
